theory Spec2Isabelle
  imports Main "HOL-Library.Word"
begin

section \<open>The asynchronous I/O manager of the mosaic driver\<close>

text \<open>
  A shallow embedding of \<^verbatim>\<open>include/rosaic/communication/async_manager.hpp\<close>: the class
  template \<^verbatim>\<open>AsyncManager<StreamT>\<close>, its constructor and destructor, \<^verbatim>\<open>setCallback\<close>,
  \<^verbatim>\<open>doRead\<close>, \<^verbatim>\<open>async_read_some_handler\<close>, \<^verbatim>\<open>doClose\<close> and \<^verbatim>\<open>wait\<close>.

  Every member function takes the manager's state and returns the new one. What a member
  function does to its collaborators (the mutex, the condition variable, the stream, the
  \<^verbatim>\<open>io_service\<close>, the ROS log, the consumer callback) is appended, in program order, to the
  \<open>trace\<close> of the state. Every member function that touches shared data holds
  \<^verbatim>\<open>read_mutex_\<close> from its first statement to the end of its scope, so the functions are
  atomic with respect to each other and an interleaving of threads is a sequence of them.

  Isabelle does not accept a name ending in an underscore, so the data members drop it:
  \<open>in_buffer\<close> is \<^verbatim>\<open>in_\<close>, \<open>in_buffer_size\<close> is \<^verbatim>\<open>in_buffer_size_\<close>, \<open>read_callback\<close> is
  \<^verbatim>\<open>read_callback_\<close>, \<open>stopping\<close> is \<^verbatim>\<open>stopping_\<close>, \<open>out_buffer\<close> is \<^verbatim>\<open>out_\<close>.
  Exceptions of the C++ runtime for exhausted resources (\<^verbatim>\<open>std::bad_alloc\<close>,
  \<^verbatim>\<open>boost::thread_resource_error\<close>) are outside the model.
\<close>

subsection \<open>Data\<close>

type_synonym byte = "8 word"

text \<open>\<^verbatim>\<open>std::size_t\<close> on the LP64 platforms ROS runs on: 64 bits, arithmetic wraps.\<close>

type_synonym size_t = "64 word"

text \<open>\<^verbatim>\<open>boost::system::error_code\<close>: \<^verbatim>\<open>if (error)\<close> holds for \<open>Failure\<close>, whose argument is
  \<^verbatim>\<open>error.message()\<close>.\<close>

datatype error_code = Success | Failure string

text \<open>
  \<^verbatim>\<open>typedef boost::function<void(uint8_t*, std::size_t&)> Callback\<close>. The callback receives
  a pointer to mutable bytes and the length by non-const reference, so it can change
  both: it maps the bytes it sees and the length to the bytes and the length it leaves.
  An empty \<^verbatim>\<open>boost::function\<close> (the test \<^verbatim>\<open>if (read_callback_)\<close> fails) is \<open>None\<close>.
\<close>

type_synonym callback = "byte list \<Rightarrow> size_t \<Rightarrow> byte list \<times> size_t"

text \<open>The handlers bound with \<^verbatim>\<open>boost::bind\<close> and posted to the \<^verbatim>\<open>io_service\<close>.\<close>

datatype task = DoRead | DoClose

text \<open>An argument of a printf-style ROS log call: \<^verbatim>\<open>%s\<close>, or a number as printed.\<close>

datatype log_arg = StrArg string | NumArg int

text \<open>
  What a member function does to its collaborators. A pointer into \<^verbatim>\<open>in_\<close> is its offset
  from \<^verbatim>\<open>in_.data()\<close>. \<open>ReadCallback p buf n\<close> is the call \<^verbatim>\<open>read_callback_(p, n)\<close> with
  \<open>buf\<close> the contents of \<^verbatim>\<open>in_\<close> at the moment of the call; \<open>AsyncReadSome p n\<close> is
  \<^verbatim>\<open>stream_->async_read_some(buffer(p, n), handler)\<close>.
\<close>

datatype event =
    RosDebug string "log_arg list"
  | RosError string "log_arg list"
  | Lock
  | Unlock
  | AsyncReadSome size_t size_t
  | ReadCallback size_t "byte list" size_t
  | NotifyAll
  | Post task
  | StreamClose
  | SpawnThread
  | Join
  | TimedWait nat nat

text \<open>
  The data members of \<^verbatim>\<open>AsyncManager\<close>, then the state of its collaborators:
  \<open>io_service_queue\<close> holds the handlers posted to \<^verbatim>\<open>io_service_\<close> and not yet run,
  \<open>stream_reads\<close> the \<^verbatim>\<open>async_read_some\<close> requests (pointer, length) the stream has not
  completed yet, \<open>waiters\<close> the threads (identifier, timeout) blocked in
  \<^verbatim>\<open>read_condition_.timed_wait\<close>.
\<close>

record manager =
  in_buffer :: "byte list"
  in_buffer_size :: size_t
  out_buffer :: "byte list"
  read_callback :: "callback option"
  stopping :: bool
  io_service_queue :: "task list"
  stream_reads :: "(size_t \<times> size_t) list"
  waiters :: "(nat \<times> nat) list"
  trace :: "event list"

subsection \<open>Collaborators\<close>

definition emit :: "event list \<Rightarrow> manager \<Rightarrow> manager" where
  "emit es s = s\<lparr>trace := trace s @ es\<rparr>"

text \<open>\<^verbatim>\<open>io_service_->post(boost::bind(&AsyncManager<StreamT>::f, this))\<close>: queued, never run
  from inside \<^verbatim>\<open>post\<close>.\<close>

definition post :: "task \<Rightarrow> manager \<Rightarrow> manager" where
  "post t s = emit [Post t] (s\<lparr>io_service_queue := io_service_queue s @ [t]\<rparr>)"

text \<open>\<^verbatim>\<open>read_condition_.notify_all()\<close>: every thread blocked on the condition becomes ready.\<close>

definition notify_all :: "manager \<Rightarrow> manager" where
  "notify_all s = emit [NotifyAll] (s\<lparr>waiters := []\<rparr>)"

text \<open>
  Bytes written through a pointer \<open>off\<close> bytes into a vector: the vector keeps its size.
  A write past its end is undefined behaviour in C++; here the excess is dropped.
\<close>

definition write_at :: "nat \<Rightarrow> 'a list \<Rightarrow> 'a list \<Rightarrow> 'a list" where
  "write_at off ws xs = take off xs @ take (length xs - off) ws @ drop (off + length ws) xs"

text \<open>
  \<^verbatim>\<open>read_callback_(in_.data(), in_buffer_size_)\<close>: the callback sees the whole vector from
  its first byte and the length by reference; what it leaves is written back.
\<close>

definition invoke_read_callback :: "callback \<Rightarrow> manager \<Rightarrow> manager" where
  "invoke_read_callback cb s =
     (let r = cb (in_buffer s) (in_buffer_size s)
      in (emit [ReadCallback 0 (in_buffer s) (in_buffer_size s)] s)
           \<lparr>in_buffer := write_at 0 (fst r) (in_buffer s), in_buffer_size := snd r\<rparr>)"

subsection \<open>Member functions\<close>

definition default_buffer_size :: size_t where
  "default_buffer_size = 8192"

text \<open>
  The constructor: \<^verbatim>\<open>stopping_(false)\<close>, \<^verbatim>\<open>in_.resize(buffer_size)\<close> (value-initialised
  bytes), \<^verbatim>\<open>in_buffer_size_ = 0\<close>, \<^verbatim>\<open>out_.reserve(buffer_size)\<close> (no elements), the post of
  \<^verbatim>\<open>doRead\<close>, then the thread running \<^verbatim>\<open>io_service::run\<close>. The \<^verbatim>\<open>io_service\<close> and the
  stream are taken fresh: no handler queued, no read outstanding.
\<close>

definition AsyncManager :: "size_t \<Rightarrow> manager" where
  "AsyncManager buffer_size =
     (let s0 = \<lparr>in_buffer = [], in_buffer_size = 0, out_buffer = [], read_callback = None,
                stopping = False, io_service_queue = [], stream_reads = [], waiters = [],
                trace = []\<rparr>;
          s1 = emit [RosDebug ''Setting the stream private variable of the AsyncManager class.'' []] s0;
          s2 = s1\<lparr>in_buffer := replicate (unat buffer_size) 0\<rparr>;
          s3 = s2\<lparr>in_buffer_size := 0\<rparr>;
          s4 = post DoRead s3
      in emit [SpawnThread] s4)"

text \<open>The destructor: the post of \<^verbatim>\<open>doClose\<close>, then \<^verbatim>\<open>callback_thread_->join()\<close>.\<close>

definition AsyncManager_destructor :: "manager \<Rightarrow> manager" where
  "AsyncManager_destructor s = emit [Join] (post DoClose s)"

definition setCallback :: "callback option \<Rightarrow> manager \<Rightarrow> manager" where
  "setCallback cb s = s\<lparr>read_callback := cb\<rparr>"

text \<open>
  \<^verbatim>\<open>doRead\<close>: under the lock, one \<^verbatim>\<open>async_read_some\<close> into
  \<^verbatim>\<open>buffer(in_.data() + in_buffer_size_, in_.size() - in_buffer_size_)\<close>; the subtraction
  is \<^verbatim>\<open>size_t\<close> arithmetic.
\<close>

definition doRead :: "manager \<Rightarrow> manager" where
  "doRead s =
     (let s1 = emit [RosDebug ''Entered doRead() method of the AsyncManager class.'' []] s;
          s2 = emit [Lock] s1;
          p = in_buffer_size s2;
          n = of_nat (length (in_buffer s2)) - in_buffer_size s2;
          s3 = emit [AsyncReadSome p n] (s2\<lparr>stream_reads := stream_reads s2 @ [(p, n)]\<rparr>)
      in emit [Unlock] s3)"

text \<open>
  \<^verbatim>\<open>async_read_some_handler\<close>. \<^verbatim>\<open>%li\<close> prints the \<^verbatim>\<open>size_t\<close> as a signed long, the
  debug line prints it cast to \<^verbatim>\<open>unsigned int\<close>.
\<close>

definition async_read_some_handler :: "error_code \<Rightarrow> size_t \<Rightarrow> manager \<Rightarrow> manager" where
  "async_read_some_handler error bytes_transfered s =
     (let s1 = emit [RosDebug ''Entered async_read_some_handler method.'' []] s;
          s2 = emit [Lock] s1;
          s3 = (case error of
                  Failure msg \<Rightarrow>
                    emit [RosError ''mosaic-X5 ASIO input buffer read error: %s, %li''
                            [StrArg msg, NumArg (sint bytes_transfered)]] s2
                | Success \<Rightarrow>
                    if bytes_transfered > 0 then
                      (let s4 = s2\<lparr>in_buffer_size := in_buffer_size s2 + bytes_transfered\<rparr>;
                           s5 = (case read_callback s4 of
                                   Some cb \<Rightarrow>
                                     invoke_read_callback cb
                                       (emit [RosDebug ''Leaving async_read_some_handler method, with bytes_transferred being %u''
                                                [NumArg (uint (ucast bytes_transfered :: 32 word))]] s4)
                                 | None \<Rightarrow> s4)
                       in notify_all s5)
                    else s2);
          s6 = (if \<not> stopping s3 then post DoRead s3 else s3)
      in emit [Unlock] s6)"

text \<open>
  \<^verbatim>\<open>doClose\<close>. The argument is the error code that \<^verbatim>\<open>stream_->close(error)\<close> stores in
  \<^verbatim>\<open>error\<close>: the stream's answer, not the manager's choice.
\<close>

definition doClose :: "error_code \<Rightarrow> manager \<Rightarrow> manager" where
  "doClose close_error s =
     (let s1 = emit [Lock] s;
          s2 = s1\<lparr>stopping := True\<rparr>;
          s3 = emit [StreamClose] s2;
          s4 = (case close_error of
                  Failure msg \<Rightarrow>
                    emit [RosError (''Error while closing the AsyncManager: '' @ msg) []] s3
                | Success \<Rightarrow> s3)
      in emit [Unlock] s4)"

text \<open>
  \<^verbatim>\<open>wait\<close> is two steps for the thread \<open>tid\<close> that calls it. \<open>wait\<close> takes the lock and
  blocks in \<^verbatim>\<open>timed_wait\<close>, which releases the mutex. \<open>wait_return\<close> is the return of
  \<^verbatim>\<open>timed_wait\<close> (after a notification, at the timeout or spuriously, the mutex taken
  again) and the end of the scope.
\<close>

definition wait :: "nat \<Rightarrow> nat \<Rightarrow> manager \<Rightarrow> manager" where
  "wait tid timeout s =
     emit [TimedWait tid timeout] ((emit [Lock] s)\<lparr>waiters := waiters s @ [(tid, timeout)]\<rparr>)"

definition wait_return :: "nat \<Rightarrow> manager \<Rightarrow> manager" where
  "wait_return tid s =
     emit [Unlock] (s\<lparr>waiters := filter (\<lambda>w. fst w \<noteq> tid) (waiters s)\<rparr>)"

subsection \<open>The execution context and the transport\<close>

text \<open>
  Modelled from the spec: the \<^verbatim>\<open>io_service\<close> (Boost.Asio, not part of this repository).
  Its worker thread takes the oldest posted handler and runs it. \<open>close_error\<close> is the
  stream's answer should the handler be \<^verbatim>\<open>doClose\<close>.
\<close>

definition run_task :: "error_code \<Rightarrow> task \<Rightarrow> manager \<Rightarrow> manager" where
  "run_task close_error t s = (case t of DoRead \<Rightarrow> doRead s | DoClose \<Rightarrow> doClose close_error s)"

definition run_one :: "error_code \<Rightarrow> manager \<Rightarrow> manager" where
  "run_one close_error s =
     (case io_service_queue s of
        [] \<Rightarrow> s
      | t # ts \<Rightarrow> run_task close_error t (s\<lparr>io_service_queue := ts\<rparr>))"

text \<open>
  Modelled from the spec: the stream (a Boost.Asio serial port or socket, not part of this
  repository), which reads into the mutable byte range it was given and invokes the
  completion handler with the error and the number of bytes read. The oldest outstanding
  request completes: of the bytes \<open>data\<close> on the line the stream stores at most as many as
  the request has room for, at the pointer of the request, and reports how many it
  stored. A request for no bytes completes with none.
\<close>

definition read_completes :: "error_code \<Rightarrow> byte list \<Rightarrow> manager \<Rightarrow> manager" where
  "read_completes error data s =
     (case stream_reads s of
        [] \<Rightarrow> s
      | (p, n) # rs \<Rightarrow>
          (let received = take (unat n) data;
               s1 = s\<lparr>in_buffer := write_at (unat p) received (in_buffer s), stream_reads := rs\<rparr>
           in async_read_some_handler error (of_nat (length received)) s1))"

text \<open>
  A mock transport that delivers the given chunks, one per completion: the worker runs
  the posted handler (the \<^verbatim>\<open>doRead\<close> that arms the read), then the read completes
  without error with the next chunk.
\<close>

definition deliver :: "byte list \<Rightarrow> manager \<Rightarrow> manager" where
  "deliver chunk s = read_completes Success chunk (run_one Success s)"

definition mock_transport :: "byte list list \<Rightarrow> manager \<Rightarrow> manager" where
  "mock_transport chunks s = fold deliver chunks s"

text \<open>The operations on a manager, by any thread, and a run of them in the order given.\<close>

datatype operation =
    Worker_runs error_code
  | Read_completes error_code "byte list"
  | Set_callback "callback option"
  | Wait nat nat
  | Wait_returns nat
  | Destroy

fun step :: "operation \<Rightarrow> manager \<Rightarrow> manager" where
  "step (Worker_runs close_error) s = run_one close_error s"
| "step (Read_completes error data) s = read_completes error data s"
| "step (Set_callback cb) s = setCallback cb s"
| "step (Wait tid timeout) s = wait tid timeout s"
| "step (Wait_returns tid) s = wait_return tid s"
| "step Destroy s = AsyncManager_destructor s"

definition run :: "operation list \<Rightarrow> manager \<Rightarrow> manager" where
  "run ops s = fold step ops s"

subsection \<open>Reading a trace\<close>

text \<open>The calls of the consumer callback in a trace: pointer, contents of the vector, length.\<close>

fun callback_calls :: "event list \<Rightarrow> (size_t \<times> byte list \<times> size_t) list" where
  "callback_calls [] = []"
| "callback_calls (ReadCallback p buf n # es) = (p, buf, n) # callback_calls es"
| "callback_calls (e # es) = callback_calls es"

definition call_pointer :: "size_t \<times> byte list \<times> size_t \<Rightarrow> size_t" where
  "call_pointer c = fst c"

definition call_length :: "size_t \<times> byte list \<times> size_t \<Rightarrow> size_t" where
  "call_length c = snd (snd c)"

text \<open>The bytes the callback is told are valid: the first \<open>length\<close> bytes at the pointer.\<close>

definition call_contents :: "size_t \<times> byte list \<times> size_t \<Rightarrow> byte list" where
  "call_contents c = take (unat (call_length c)) (drop (unat (call_pointer c)) (fst (snd c)))"

text \<open>The events a member function added to the trace.\<close>

definition added :: "manager \<Rightarrow> manager \<Rightarrow> event list" where
  "added s s' = drop (length (trace s)) (trace s')"

text \<open>The positions of \<^verbatim>\<open>in_\<close> that a read request (pointer, length) lets the stream write.\<close>

definition slice :: "size_t \<times> size_t \<Rightarrow> nat list" where
  "slice r = [unat (fst r) ..< unat (fst r) + unat (snd r)]"

text \<open>The buffer invariant \<open>0 \<le> occupied_length \<le> capacity\<close>; the capacity is a \<^verbatim>\<open>size_t\<close>.\<close>

definition buffer_inv :: "manager \<Rightarrow> bool" where
  "buffer_inv s \<longleftrightarrow>
     length (in_buffer s) < 2 ^ 64 \<and> unat (in_buffer_size s) \<le> length (in_buffer s)"

text \<open>
  Three consumer callbacks. \<open>observe\<close> only looks at what it is handed. \<open>consume_all\<close>
  takes everything it is handed and, through the reference, sets the length back to 0.
  \<open>overshoot\<close> sets the length to 10, whatever the size of the vector.
\<close>

definition observe :: callback where
  "observe buf n = (buf, n)"

definition consume_all :: callback where
  "consume_all buf n = (buf, 0)"

definition overshoot :: callback where
  "overshoot buf n = (buf, 10)"

text \<open>A callback that changes neither the bytes nor the length.\<close>

definition read_only :: "callback \<Rightarrow> bool" where
  "read_only cb \<longleftrightarrow> (\<forall>buf n. cb buf n = (buf, n))"

text \<open>A callback that does not raise the length above the size of the vector.\<close>

definition bounded_length :: "callback \<Rightarrow> bool" where
  "bounded_length cb \<longleftrightarrow>
     (\<forall>buf n. unat n \<le> length buf \<longrightarrow> unat (snd (cb buf n)) \<le> length buf)"



text \<open>
  What holds of a manager between two operations when its callbacks keep the length
  within the capacity: the buffer invariant; at most one read is posted or outstanding;
  an outstanding request fits between the occupied length and the capacity.
\<close>

definition engine_inv :: "manager \<Rightarrow> bool" where
  "engine_inv s \<longleftrightarrow>
     buffer_inv s
     \<and> count_list (io_service_queue s) DoRead + length (stream_reads s) \<le> 1
     \<and> list_all (\<lambda>r. unat (in_buffer_size s) + unat (snd r) \<le> length (in_buffer s)) (stream_reads s)
     \<and> (case read_callback s of None \<Rightarrow> True | Some cb \<Rightarrow> bounded_length cb)"


text \<open>The callbacks that a run of operations registers.\<close>

fun registered :: "operation list \<Rightarrow> callback list" where
  "registered [] = []"
| "registered (Set_callback (Some cb) # ops) = cb # registered ops"
| "registered (opn # ops) = registered ops"

section \<open>Properties\<close>

lemma callback_calls_append:
  "callback_calls (xs @ ys) = callback_calls xs @ callback_calls ys"
  by (induction xs rule: callback_calls.induct) simp_all

lemmas member_defs =
  emit_def post_def notify_all_def invoke_read_callback_def AsyncManager_def
  AsyncManager_destructor_def setCallback_def doRead_def async_read_some_handler_def
  doClose_def wait_def wait_return_def

text \<open>A write through a pointer keeps the size of the vector.\<close>

lemma length_write_at: "length (write_at off ws xs) = length xs"
  by (simp add: write_at_def)

text \<open>
  \<^verbatim>\<open>size_t\<close> arithmetic that does not wrap: the free room of a buffer within the invariant,
  a byte count bounded by a requested length, and an occupied length advanced within the
  capacity.
\<close>

lemma unat_free:
  "length xs < 2 ^ 64 \<Longrightarrow> unat (w :: size_t) \<le> length xs \<Longrightarrow>
   unat (of_nat (length xs) - w :: size_t) = length xs - unat w"
proof -
  assume a: "length xs < 2 ^ 64" and b: "unat w \<le> length xs"
  from a have l: "unat (of_nat (length xs) :: size_t) = length xs"
    by (simp add: unat_of_nat)
  with b have "w \<le> of_nat (length xs)"
    by (simp add: word_le_nat_alt)
  then show ?thesis using l by (simp add: unat_sub)
qed

lemma unat_count:
  "k \<le> unat (n :: size_t) \<Longrightarrow> unat (of_nat k :: size_t) = k"
proof -
  assume "k \<le> unat n"
  moreover have "unat n < 2 ^ 64" using unsigned_less [of n] by simp
  ultimately show ?thesis by (simp add: unat_of_nat)
qed

lemma unat_advance:
  "unat (w :: size_t) + unat (n :: size_t) \<le> L \<Longrightarrow> L < 2 ^ 64 \<Longrightarrow> unat (w + n) = unat w + unat n"
  using unat_add_lem [of w n] by simp

subsection \<open>Successful completions\<close>

text \<open>
  One delivery of the mock transport to a running manager whose callback only reads: the
  chunk lands behind the bytes received so far, the occupied length grows by its length,
  and the callback is called once with the whole buffer.
\<close>

lemma write_at_fits:
  "off + length ws \<le> length xs \<Longrightarrow> write_at off ws xs = take off xs @ ws @ drop (off + length ws) xs"
  by (simp add: write_at_def)

lemma write_at_self: "write_at 0 xs xs = xs"
  by (simp add: write_at_def)

lemma deliver_step:
  assumes q: "io_service_queue s = [DoRead]" and r: "stream_reads s = []"
    and st: "\<not> stopping s" and cb: "read_callback s = Some cb" and ro: "read_only cb"
    and len: "length (in_buffer s) < 2 ^ 64"
    and fit: "unat (in_buffer_size s) + length c \<le> length (in_buffer s)"
    and ne: "c \<noteq> []"
  shows "io_service_queue (deliver c s) = [DoRead]"
    and "stream_reads (deliver c s) = []"
    and "\<not> stopping (deliver c s)"
    and "read_callback (deliver c s) = Some cb"
    and "length (in_buffer (deliver c s)) = length (in_buffer s)"
    and "unat (in_buffer_size (deliver c s)) = unat (in_buffer_size s) + length c"
    and "in_buffer_size (deliver c s) = in_buffer_size s + of_nat (length c)"
    and "take (unat (in_buffer_size s) + length c) (in_buffer (deliver c s))
           = take (unat (in_buffer_size s)) (in_buffer s) @ c"
    and "callback_calls (trace (deliver c s))
           = callback_calls (trace s) @ [(0, in_buffer (deliver c s), in_buffer_size (deliver c s))]"
proof -
  let ?n = "of_nat (length (in_buffer s)) - in_buffer_size s :: size_t"
  let ?k = "of_nat (length c) :: size_t"
  have n: "unat ?n = length (in_buffer s) - unat (in_buffer_size s)"
    using len fit by (simp add: unat_free)
  then have tk: "take (unat ?n) c = c" using fit by simp
  have k: "unat ?k = length c"
    using len fit by (simp add: unat_of_nat)
  with ne have pos: "0 < ?k"
    by (simp add: word_gt_0 flip: unat_0_iff)
  have adv: "unat (in_buffer_size s + ?k) = unat (in_buffer_size s) + length c"
    using unat_advance [of "in_buffer_size s" ?k "length (in_buffer s)"] k fit len by simp
  have w: "write_at (unat (in_buffer_size s)) c (in_buffer s)
             = take (unat (in_buffer_size s)) (in_buffer s) @ c
                 @ drop (unat (in_buffer_size s) + length c) (in_buffer s)"
    using fit by (rule write_at_fits)
  have cbv: "cb buf m = (buf, m)" for buf m
    using ro by (simp add: read_only_def)
  have d: "deliver c s =
     (s\<lparr>in_buffer := write_at (unat (in_buffer_size s)) c (in_buffer s),
         in_buffer_size := in_buffer_size s + ?k,
         io_service_queue := [DoRead],
         stream_reads := [],
         waiters := [],
         trace := trace s @
           [RosDebug ''Entered doRead() method of the AsyncManager class.'' [], Lock,
            AsyncReadSome (in_buffer_size s) ?n, Unlock,
            RosDebug ''Entered async_read_some_handler method.'' [], Lock,
            RosDebug ''Leaving async_read_some_handler method, with bytes_transferred being %u''
              [NumArg (uint (ucast ?k :: 32 word))],
            ReadCallback 0 (write_at (unat (in_buffer_size s)) c (in_buffer s)) (in_buffer_size s + ?k),
            NotifyAll, Post DoRead, Unlock]\<rparr>)"
    using q r st cb pos tk
    by (simp add: deliver_def run_one_def run_task_def read_completes_def member_defs Let_def
          cbv write_at_self)
  show "io_service_queue (deliver c s) = [DoRead]" by (simp add: d)
  show "stream_reads (deliver c s) = []" by (simp add: d)
  show "\<not> stopping (deliver c s)" using st by (simp add: d)
  show "read_callback (deliver c s) = Some cb" using cb by (simp add: d)
  show "length (in_buffer (deliver c s)) = length (in_buffer s)" by (simp add: d length_write_at)
  show "unat (in_buffer_size (deliver c s)) = unat (in_buffer_size s) + length c"
    using adv by (simp add: d)
  show "in_buffer_size (deliver c s) = in_buffer_size s + of_nat (length c)" by (simp add: d)
  show "take (unat (in_buffer_size s) + length c) (in_buffer (deliver c s))
           = take (unat (in_buffer_size s)) (in_buffer s) @ c"
    using fit by (simp add: d w)
  show "callback_calls (trace (deliver c s))
           = callback_calls (trace s) @ [(0, in_buffer (deliver c s), in_buffer_size (deliver c s))]"
    by (simp add: d callback_calls_append)
qed


lemma three_chunks:
  assumes ne: "A \<noteq> []" "B \<noteq> []" "C \<noteq> []"
    and fit: "length A + length B + length C \<le> unat capacity"
    and ro: "read_only cb"
  shows "callback_calls (trace (mock_transport [A, B, C] (setCallback (Some cb) (AsyncManager capacity))))
           = [(0, in_buffer (deliver A (setCallback (Some cb) (AsyncManager capacity))),
                  of_nat (length A)),
              (0, in_buffer (deliver B (deliver A (setCallback (Some cb) (AsyncManager capacity)))),
                  of_nat (length A) + of_nat (length B)),
              (0, in_buffer (deliver C (deliver B (deliver A (setCallback (Some cb) (AsyncManager capacity))))),
                  of_nat (length A) + of_nat (length B) + of_nat (length C))]"
    (is ?calls)
    and "unat (of_nat (length A) :: size_t) = length A" (is ?l1)
    and "unat (of_nat (length A) + of_nat (length B) :: size_t) = length A + length B" (is ?l2)
    and "unat (of_nat (length A) + of_nat (length B) + of_nat (length C) :: size_t)
           = length A + length B + length C" (is ?l3)
    and "take (length A) (in_buffer (deliver A (setCallback (Some cb) (AsyncManager capacity)))) = A"
      (is ?c1)
    and "take (length A + length B)
           (in_buffer (deliver B (deliver A (setCallback (Some cb) (AsyncManager capacity))))) = A @ B"
      (is ?c2)
    and "take (length A + length B + length C)
           (in_buffer (deliver C (deliver B (deliver A (setCallback (Some cb) (AsyncManager capacity))))))
           = A @ B @ C"
      (is ?c3)
proof -
  let ?s0 = "setCallback (Some cb) (AsyncManager capacity)"
  let ?s1 = "deliver A ?s0"
  let ?s2 = "deliver B ?s1"
  let ?s3 = "deliver C ?s2"
  have cap: "unat capacity < 2 ^ 64" using unsigned_less [of capacity] by simp
  have s0: "io_service_queue ?s0 = [DoRead]" "stream_reads ?s0 = []" "\<not> stopping ?s0"
    "read_callback ?s0 = Some cb" "length (in_buffer ?s0) = unat capacity"
    "in_buffer_size ?s0 = 0" "callback_calls (trace ?s0) = []"
    by (simp_all add: setCallback_def AsyncManager_def emit_def post_def)
  have f0: "unat (in_buffer_size ?s0) + length A \<le> length (in_buffer ?s0)"
    using fit s0 by simp
  have l0: "length (in_buffer ?s0) < 2 ^ 64" using cap s0 by simp
  note s1 = deliver_step [OF s0(1-4) ro l0 f0 ne(1)]
  have f1: "unat (in_buffer_size ?s1) + length B \<le> length (in_buffer ?s1)"
    using fit s0 s1(5,6) by simp
  have l1: "length (in_buffer ?s1) < 2 ^ 64" using l0 s1(5) by simp
  note s2 = deliver_step [OF s1(1-4) ro l1 f1 ne(2)]
  have f2: "unat (in_buffer_size ?s2) + length C \<le> length (in_buffer ?s2)"
    using fit s0 s1(5,6) s2(5,6) by simp
  have l2: "length (in_buffer ?s2) < 2 ^ 64" using l1 s2(5) by simp
  note s3 = deliver_step [OF s2(1-4) ro l2 f2 ne(3)]
  have n1: "in_buffer_size ?s1 = of_nat (length A)" using s1(7) s0(6) by simp
  have n2: "in_buffer_size ?s2 = of_nat (length A) + of_nat (length B)" using s2(7) n1 by simp
  have n3: "in_buffer_size ?s3 = of_nat (length A) + of_nat (length B) + of_nat (length C)"
    using s3(7) n2 by simp
  have m: "mock_transport [A, B, C] ?s0 = ?s3" by (simp add: mock_transport_def)
  show ?calls using s3(9) s2(9) s1(9) s0(7) n1 n2 n3 by (simp only: m append_Nil append_Cons)
  show ?l1 using s1(6) n1 s0(6) by simp
  show ?l2 using s2(6) s1(6) n2 s0(6) by simp
  show ?l3 using s3(6) s2(6) s1(6) n3 s0(6) by simp
  show ?c1 using s1(8) s0(6) by simp
  show ?c2 using s2(8) s1(8) s1(6) s0(6) by simp
  show ?c3 using s3(8) s2(8) s1(8) s2(6) s1(6) s0(6) by simp
qed

text \<open>
  C1, as the code has it. A completion without error and with \<open>n > 0\<close> bytes: the handler
  adds \<open>n\<close> to the occupied length; if a callback is registered it calls it once, with
  the pointer to the first byte of the buffer and the new occupied length, and notifies
  the condition after that call; with no callback it only notifies. The callback holds
  the length by reference, and the occupied length after the handler is the one the
  callback leaves. For a mock transport that delivers three non-empty chunks \<open>A\<close>, \<open>B\<close>,
  \<open>C\<close> which together fit into the buffer, to a manager whose callback changes neither
  the bytes nor the length, the callback is called three times, with the lengths
  \<open>|A|\<close>, \<open>|A| + |B|\<close>, \<open>|A| + |B| + |C|\<close> and the contents \<open>A\<close>, \<open>A @ B\<close>, \<open>A @ B @ C\<close>.
\<close>

theorem callback_fidelity:
  "(0 < n \<longrightarrow>
      (read_callback s = None \<longrightarrow>
         in_buffer_size (async_read_some_handler Success n s) = in_buffer_size s + n
         \<and> added s (async_read_some_handler Success n s) =
             [RosDebug ''Entered async_read_some_handler method.'' [], Lock, NotifyAll]
               @ (if stopping s then [] else [Post DoRead]) @ [Unlock])
      \<and> (read_callback s = Some cb \<longrightarrow>
         in_buffer_size (async_read_some_handler Success n s)
           = snd (cb (in_buffer s) (in_buffer_size s + n))
         \<and> added s (async_read_some_handler Success n s) =
             [RosDebug ''Entered async_read_some_handler method.'' [], Lock,
              RosDebug ''Leaving async_read_some_handler method, with bytes_transferred being %u''
                [NumArg (uint (ucast n :: 32 word))],
              ReadCallback 0 (in_buffer s) (in_buffer_size s + n), NotifyAll]
               @ (if stopping s then [] else [Post DoRead]) @ [Unlock])
      \<and> waiters (async_read_some_handler Success n s) = [])
   \<and> (A \<noteq> [] \<and> B \<noteq> [] \<and> C \<noteq> [] \<and> length A + length B + length C \<le> unat capacity
        \<and> read_only cb' \<longrightarrow>
        map call_pointer
          (callback_calls (trace (mock_transport [A, B, C] (setCallback (Some cb') (AsyncManager capacity)))))
          = [0, 0, 0]
        \<and> map (\<lambda>c. unat (call_length c))
            (callback_calls (trace (mock_transport [A, B, C] (setCallback (Some cb') (AsyncManager capacity)))))
          = [length A, length A + length B, length A + length B + length C]
        \<and> map call_contents
            (callback_calls (trace (mock_transport [A, B, C] (setCallback (Some cb') (AsyncManager capacity)))))
          = [A, A @ B, A @ B @ C])"
proof -
  have per: "0 < n \<Longrightarrow>
      (read_callback s = None \<longrightarrow>
         in_buffer_size (async_read_some_handler Success n s) = in_buffer_size s + n
         \<and> added s (async_read_some_handler Success n s) =
             [RosDebug ''Entered async_read_some_handler method.'' [], Lock, NotifyAll]
               @ (if stopping s then [] else [Post DoRead]) @ [Unlock])
      \<and> (read_callback s = Some cb \<longrightarrow>
         in_buffer_size (async_read_some_handler Success n s)
           = snd (cb (in_buffer s) (in_buffer_size s + n))
         \<and> added s (async_read_some_handler Success n s) =
             [RosDebug ''Entered async_read_some_handler method.'' [], Lock,
              RosDebug ''Leaving async_read_some_handler method, with bytes_transferred being %u''
                [NumArg (uint (ucast n :: 32 word))],
              ReadCallback 0 (in_buffer s) (in_buffer_size s + n), NotifyAll]
               @ (if stopping s then [] else [Post DoRead]) @ [Unlock])
      \<and> waiters (async_read_some_handler Success n s) = []"
    by (simp add: member_defs added_def Let_def)
  have scen: "map call_pointer
          (callback_calls (trace (mock_transport [A, B, C] (setCallback (Some cb') (AsyncManager capacity)))))
          = [0, 0, 0]
        \<and> map (\<lambda>c. unat (call_length c))
            (callback_calls (trace (mock_transport [A, B, C] (setCallback (Some cb') (AsyncManager capacity)))))
          = [length A, length A + length B, length A + length B + length C]
        \<and> map call_contents
            (callback_calls (trace (mock_transport [A, B, C] (setCallback (Some cb') (AsyncManager capacity)))))
          = [A, A @ B, A @ B @ C]"
    if h: "A \<noteq> []" "B \<noteq> []" "C \<noteq> []" "length A + length B + length C \<le> unat capacity"
      "read_only cb'"
    using three_chunks [OF h]
    by (simp add: call_pointer_def call_length_def call_contents_def)
  from per scen show ?thesis by blast
qed

theorem callback_fidelity_witness:
  "(0 :: size_t) < 3 \<and> read_callback (setCallback (Some observe) (AsyncManager 8)) = Some observe
   \<and> [1, 2, 3 :: byte] \<noteq> [] \<and> [4, 5 :: byte] \<noteq> [] \<and> [6 :: byte] \<noteq> []
   \<and> length [1, 2, 3 :: byte] + length [4, 5 :: byte] + length [6 :: byte] \<le> unat (8 :: size_t)
   \<and> read_only observe
   \<and> callback_calls (added (setCallback (Some observe) (AsyncManager 8))
        (async_read_some_handler Success 3 (setCallback (Some observe) (AsyncManager 8))))
       = [(0, replicate 8 0, 3)]
   \<and> map (\<lambda>c. unat (call_length c))
        (callback_calls (trace (mock_transport [[1, 2, 3], [4, 5], [6]]
           (setCallback (Some observe) (AsyncManager 8)))))
       = [3, 5, 6]
   \<and> map call_contents
        (callback_calls (trace (mock_transport [[1, 2, 3], [4, 5], [6]]
           (setCallback (Some observe) (AsyncManager 8)))))
       = [[1, 2, 3], [1, 2, 3, 4, 5], [1, 2, 3, 4, 5, 6]]"
  using callback_fidelity
          [of 3 "setCallback (Some observe) (AsyncManager 8)" observe
              "[1, 2, 3]" "[4, 5]" "[6]" 8 observe]
  by (simp add: read_only_def observe_def setCallback_def AsyncManager_def emit_def post_def)

text \<open>
  The claim as written fails for a callback that consumes what it is handed: each call
  then sees the newest chunk only.
\<close>

theorem callback_fidelity_counterexample:
  "map (\<lambda>c. unat (call_length c))
     (callback_calls (trace (mock_transport [[1, 2, 3], [4, 5], [6]]
        (setCallback (Some consume_all) (AsyncManager 8)))))
     = [3, 2, 1]
   \<and> map call_contents
       (callback_calls (trace (mock_transport [[1, 2, 3], [4, 5], [6]]
          (setCallback (Some consume_all) (AsyncManager 8)))))
     = [[1, 2, 3], [4, 5], [6]]"
  by (simp add: mock_transport_def deliver_def run_one_def run_task_def read_completes_def
        member_defs write_at_def consume_all_def call_length_def call_contents_def call_pointer_def
        callback_calls_append Let_def)

text \<open>
  C2. A completion that reports no error and zero bytes: the handler takes the lock,
  re-arms the read unless the manager is stopping, and releases the lock. It does not
  call the consumer callback, does not notify the condition (the blocked threads stay
  blocked), and leaves the buffer and its occupied length as they were.
\<close>

theorem zero_byte_completion:
  "trace (async_read_some_handler Success 0 s) =
     trace s @ [RosDebug ''Entered async_read_some_handler method.'' [], Lock]
       @ (if stopping s then [] else [Post DoRead]) @ [Unlock]
   \<and> callback_calls (trace (async_read_some_handler Success 0 s)) = callback_calls (trace s)
   \<and> count_list (trace (async_read_some_handler Success 0 s)) NotifyAll
       = count_list (trace s) NotifyAll
   \<and> waiters (async_read_some_handler Success 0 s) = waiters s
   \<and> in_buffer (async_read_some_handler Success 0 s) = in_buffer s
   \<and> in_buffer_size (async_read_some_handler Success 0 s) = in_buffer_size s"
  by (simp add: member_defs callback_calls_append)

subsection \<open>Failed completions\<close>

text \<open>
  C3. A completion that reports an error: the handler logs the error with its message and
  the byte count, does not advance the occupied length, issues no read of its own, and
  still re-arms the read loop (posts \<^verbatim>\<open>doRead\<close>) unless the manager is stopping.
\<close>

theorem read_error_reported_and_rearmed:
  "trace (async_read_some_handler (Failure msg) n s) =
     trace s @ [RosDebug ''Entered async_read_some_handler method.'' [], Lock,
                RosError ''mosaic-X5 ASIO input buffer read error: %s, %li''
                  [StrArg msg, NumArg (sint n)]]
       @ (if stopping s then [] else [Post DoRead]) @ [Unlock]
   \<and> in_buffer_size (async_read_some_handler (Failure msg) n s) = in_buffer_size s
   \<and> io_service_queue (async_read_some_handler (Failure msg) n s) =
       io_service_queue s @ (if stopping s then [] else [DoRead])
   \<and> stream_reads (async_read_some_handler (Failure msg) n s) = stream_reads s"
  by (simp add: member_defs)

text \<open>
  C10. A completion that reports an error, whatever byte count comes with it: the handler
  does not call the consumer callback, does not notify the condition, and leaves the
  buffer and the occupied length unchanged, so bytes the stream stored along with the
  error are never counted as received.
\<close>

theorem read_error_discards_bytes:
  "callback_calls (trace (async_read_some_handler (Failure msg) n s)) = callback_calls (trace s)
   \<and> count_list (trace (async_read_some_handler (Failure msg) n s)) NotifyAll
       = count_list (trace s) NotifyAll
   \<and> waiters (async_read_some_handler (Failure msg) n s) = waiters s
   \<and> in_buffer (async_read_some_handler (Failure msg) n s) = in_buffer s
   \<and> in_buffer_size (async_read_some_handler (Failure msg) n s) = in_buffer_size s
   \<and> in_buffer_size (read_completes (Failure msg) data s) = in_buffer_size s
   \<and> callback_calls (trace (read_completes (Failure msg) data s)) = callback_calls (trace s)"
  by (simp add: member_defs read_completes_def callback_calls_append Let_def
           split: list.split prod.split)

subsection \<open>The buffer invariant\<close>


lemma handler_preserves:
  assumes "buffer_inv s" "stream_reads s = []" "count_list (io_service_queue s) DoRead = 0"
    "unat (in_buffer_size s) + unat n \<le> length (in_buffer s)"
    "case read_callback s of None \<Rightarrow> True | Some cb \<Rightarrow> bounded_length cb"
  shows "engine_inv (async_read_some_handler ec n s)"
proof (cases ec)
  case (Failure msg)
  with assms show ?thesis
    by (simp add: engine_inv_def buffer_inv_def member_defs Let_def)
next
  case Success
  show ?thesis
  proof (cases "0 < n")
    case False
    with Success assms show ?thesis
      by (simp add: engine_inv_def buffer_inv_def member_defs Let_def)
  next
    case True
    have adv: "unat (in_buffer_size s + n) = unat (in_buffer_size s) + unat n"
      using assms(1,4) by (simp add: unat_advance buffer_inv_def)
    show ?thesis
    proof (cases "read_callback s")
      case None
      with True Success assms adv show ?thesis
        by (simp add: engine_inv_def buffer_inv_def member_defs Let_def)
    next
      case (Some cb)
      with assms(5) have r: "bounded_length cb" by simp
      have "unat (in_buffer_size s + n) \<le> length (in_buffer s)"
        using adv assms(4) by simp
      with r have "unat (snd (cb (in_buffer s) (in_buffer_size s + n))) \<le> length (in_buffer s)"
        by (simp add: bounded_length_def)
      with Some True Success assms show ?thesis
        by (simp add: engine_inv_def buffer_inv_def member_defs length_write_at Let_def)
    qed
  qed
qed

lemma engine_inv_doRead:
  assumes "engine_inv (s\<lparr>io_service_queue := DoRead # ts\<rparr>)"
  shows "engine_inv (doRead (s\<lparr>io_service_queue := ts\<rparr>))"
proof -
  from assms have b: "buffer_inv s" and e: "stream_reads s = []"
    by (simp_all add: engine_inv_def buffer_inv_def)
  from b have "unat (of_nat (length (in_buffer s)) - in_buffer_size s :: size_t)
                 = length (in_buffer s) - unat (in_buffer_size s)"
    by (simp add: buffer_inv_def unat_free)
  with assms e show ?thesis
    by (simp add: engine_inv_def buffer_inv_def doRead_def emit_def Let_def)
qed

lemma engine_inv_doClose:
  assumes "engine_inv (s\<lparr>io_service_queue := DoClose # ts\<rparr>)"
  shows "engine_inv (doClose ce (s\<lparr>io_service_queue := ts\<rparr>))"
  using assms
  by (cases ce) (simp_all add: engine_inv_def buffer_inv_def doClose_def emit_def Let_def)

lemma engine_inv_run_one: "engine_inv s \<Longrightarrow> engine_inv (run_one ce s)"
proof -
  assume a: "engine_inv s"
  show ?thesis
  proof (cases "io_service_queue s")
    case Nil
    with a show ?thesis by (simp add: run_one_def)
  next
    case (Cons t ts)
    then have "s = s\<lparr>io_service_queue := t # ts\<rparr>" by simp
    with a have "engine_inv (s\<lparr>io_service_queue := t # ts\<rparr>)" by simp
    with Cons show ?thesis
      by (cases t) (simp_all add: run_one_def run_task_def engine_inv_doRead engine_inv_doClose)
  qed
qed

lemma take_count: "unat (of_nat (length (take (unat (n :: size_t)) data)) :: size_t) \<le> unat n"
proof -
  have "length (take (unat n) data) \<le> unat n" by simp
  then show ?thesis by (simp only: unat_count)
qed

lemma engine_inv_read_completes:
  assumes "engine_inv s"
  shows "engine_inv (read_completes ec data s)"
proof (cases "stream_reads s")
  case Nil
  with assms show ?thesis by (simp add: read_completes_def)
next
  case (Cons r rs)
  obtain p n where r: "r = (p, n)" by (cases r)
  let ?s1 = "s\<lparr>in_buffer := write_at (unat p) (take (unat n) data) (in_buffer s), stream_reads := rs\<rparr>"
  from assms Cons r have rs: "rs = []" and q: "count_list (io_service_queue s) DoRead = 0"
    and fit: "unat (in_buffer_size s) + unat n \<le> length (in_buffer s)"
    by (simp_all add: engine_inv_def)
  have fit': "unat (in_buffer_size s) + unat (of_nat (length (take (unat n) data)) :: size_t)
                \<le> length (in_buffer s)"
    using fit take_count [of n data] by linarith
  have "engine_inv (async_read_some_handler ec (of_nat (length (take (unat n) data))) ?s1)"
  proof (rule handler_preserves)
    show "buffer_inv ?s1" using assms by (simp add: engine_inv_def buffer_inv_def length_write_at)
    show "stream_reads ?s1 = []" using rs by simp
    show "count_list (io_service_queue ?s1) DoRead = 0" using q by simp
    show "unat (in_buffer_size ?s1) + unat (of_nat (length (take (unat n) data)) :: size_t)
            \<le> length (in_buffer ?s1)"
      using fit' by (simp add: length_write_at)
    show "case read_callback ?s1 of None \<Rightarrow> True | Some cb \<Rightarrow> bounded_length cb"
      using assms by (simp add: engine_inv_def)
  qed
  with Cons r show ?thesis by (simp add: read_completes_def Let_def)
qed

lemma engine_inv_AsyncManager: "engine_inv (AsyncManager buffer_size)"
proof -
  have "unat buffer_size < 2 ^ 64" using unsigned_less [of buffer_size] by simp
  then show ?thesis
    by (simp add: engine_inv_def buffer_inv_def AsyncManager_def emit_def post_def)
qed

lemma engine_inv_step:
  assumes "engine_inv s" "list_all bounded_length (registered [opn])"
  shows "engine_inv (step opn s)"
proof (cases opn)
  case (Worker_runs ce)
  with assms show ?thesis by (simp add: engine_inv_run_one)
next
  case (Read_completes ec data)
  with assms show ?thesis by (simp add: engine_inv_read_completes)
next
  case (Set_callback cb)
  with assms show ?thesis
    by (cases cb) (simp_all add: engine_inv_def buffer_inv_def setCallback_def)
next
  case (Wait tid timeout)
  with assms show ?thesis
    by (simp add: engine_inv_def buffer_inv_def wait_def emit_def)
next
  case (Wait_returns tid)
  with assms show ?thesis
    by (simp add: engine_inv_def buffer_inv_def wait_return_def emit_def)
next
  case Destroy
  with assms show ?thesis
    by (simp add: engine_inv_def buffer_inv_def AsyncManager_destructor_def emit_def post_def)
qed

lemma registered_append:
  "registered (ops @ ops') = registered ops @ registered ops'"
  by (induction ops rule: registered.induct) simp_all

lemma registered_Cons:
  "list_all P (registered (opn # ops)) \<longleftrightarrow> list_all P (registered [opn]) \<and> list_all P (registered ops)"
  using registered_append [of "[opn]" ops] by simp

lemma engine_inv_run:
  "engine_inv s \<Longrightarrow> list_all bounded_length (registered ops) \<Longrightarrow> engine_inv (run ops s)"
proof (induction ops arbitrary: s)
  case Nil
  then show ?case by (simp add: run_def)
next
  case (Cons opn ops)
  from Cons.prems have ok1: "list_all bounded_length (registered [opn])"
    and ok2: "list_all bounded_length (registered ops)"
    by (simp_all only: registered_Cons [of _ opn ops])
  have "engine_inv (step opn s)" using Cons.prems(1) ok1 by (rule engine_inv_step)
  from Cons.IH [OF this ok2] show ?case by (simp add: run_def)
qed


lemma reachable_engine_inv:
  "list_all bounded_length (registered ops) \<Longrightarrow> engine_inv (run ops (AsyncManager buffer_size))"
  using engine_inv_AsyncManager by (rule engine_inv_run)











subsection \<open>Reading, construction and shutdown\<close>

text \<open>
  C6, as the code has it. \<^verbatim>\<open>doRead\<close> issues one read request, for the pointer
  \<^verbatim>\<open>in_.data() + in_buffer_size_\<close> and the length \<^verbatim>\<open>in_.size() - in_buffer_size_\<close> in
  \<^verbatim>\<open>size_t\<close> arithmetic, logs no error and resets nothing. In every state reached from
  construction by operations whose callbacks do not raise the length above the capacity,
  and in any state in which the buffer invariant holds, these are the positions from the
  occupied length up to the capacity, and when the buffer is full the request is for no
  bytes.
\<close>

theorem doRead_targets_free_slice:
  "stream_reads (doRead s) =
     stream_reads s @ [(in_buffer_size s, of_nat (length (in_buffer s)) - in_buffer_size s)]
   \<and> added s (doRead s) =
       [RosDebug ''Entered doRead() method of the AsyncManager class.'' [], Lock,
        AsyncReadSome (in_buffer_size s) (of_nat (length (in_buffer s)) - in_buffer_size s),
        Unlock]
   \<and> in_buffer (doRead s) = in_buffer s
   \<and> in_buffer_size (doRead s) = in_buffer_size s
   \<and> (buffer_inv s \<longrightarrow>
        slice (last (stream_reads (doRead s))) = [unat (in_buffer_size s) ..< length (in_buffer s)])
   \<and> (buffer_inv s \<and> unat (in_buffer_size s) = length (in_buffer s) \<longrightarrow>
        snd (last (stream_reads (doRead s))) = 0 \<and> slice (last (stream_reads (doRead s))) = [])
   \<and> (list_all bounded_length (registered ops) \<longrightarrow>
        slice (last (stream_reads (doRead (run ops (AsyncManager buffer_size)))))
          = [unat (in_buffer_size (run ops (AsyncManager buffer_size)))
               ..< length (in_buffer (run ops (AsyncManager buffer_size)))])
   \<and> (list_all bounded_length (registered ops)
        \<and> unat (in_buffer_size (run ops (AsyncManager buffer_size)))
            = length (in_buffer (run ops (AsyncManager buffer_size))) \<longrightarrow>
        snd (last (stream_reads (doRead (run ops (AsyncManager buffer_size))))) = 0)"
proof -
  have len: "unat (of_nat (length (in_buffer t)) - in_buffer_size t :: size_t)
               = length (in_buffer t) - unat (in_buffer_size t)" if "buffer_inv t" for t
    using that by (simp add: buffer_inv_def unat_free)
  have full: "of_nat (length (in_buffer t)) - in_buffer_size t = (0 :: size_t)"
    if "buffer_inv t" "unat (in_buffer_size t) = length (in_buffer t)" for t
    using len [OF that(1)] that(2) by (simp add: unat_eq_0)
  have sl: "slice (last (stream_reads (doRead t))) = [unat (in_buffer_size t) ..< length (in_buffer t)]"
    if "buffer_inv t" for t
    using len [OF that] that by (simp add: doRead_def emit_def slice_def Let_def buffer_inv_def)
  have zero: "snd (last (stream_reads (doRead t))) = 0"
    if "buffer_inv t" "unat (in_buffer_size t) = length (in_buffer t)" for t
    using full [OF that] by (simp add: doRead_def emit_def Let_def)
  have reach: "buffer_inv (run ops (AsyncManager buffer_size))"
    if "list_all bounded_length (registered ops)"
    using reachable_engine_inv [OF that] by (simp add: engine_inv_def)
  have plain: "stream_reads (doRead s) =
     stream_reads s @ [(in_buffer_size s, of_nat (length (in_buffer s)) - in_buffer_size s)]
   \<and> added s (doRead s) =
       [RosDebug ''Entered doRead() method of the AsyncManager class.'' [], Lock,
        AsyncReadSome (in_buffer_size s) (of_nat (length (in_buffer s)) - in_buffer_size s),
        Unlock]
   \<and> in_buffer (doRead s) = in_buffer s
   \<and> in_buffer_size (doRead s) = in_buffer_size s"
    by (simp add: doRead_def emit_def added_def Let_def)
  have empty: "slice (last (stream_reads (doRead s))) = []"
    if "buffer_inv s" "unat (in_buffer_size s) = length (in_buffer s)"
    using sl [OF that(1)] that(2) by simp
  from plain sl zero empty reach show ?thesis by blast
qed

theorem doRead_targets_free_slice_witness:
  "buffer_inv ((AsyncManager 8)\<lparr>in_buffer_size := 8\<rparr>)
   \<and> unat (in_buffer_size ((AsyncManager 8)\<lparr>in_buffer_size := 8\<rparr>))
       = length (in_buffer ((AsyncManager 8)\<lparr>in_buffer_size := 8\<rparr>))
   \<and> list_all bounded_length
       (registered [Set_callback (Some observe), Worker_runs Success,
                    Read_completes Success [1, 2, 3, 4, 5, 6, 7, 8]])
   \<and> unat (in_buffer_size
        (run [Set_callback (Some observe), Worker_runs Success,
              Read_completes Success [1, 2, 3, 4, 5, 6, 7, 8]] (AsyncManager 8)))
       = length (in_buffer
        (run [Set_callback (Some observe), Worker_runs Success,
              Read_completes Success [1, 2, 3, 4, 5, 6, 7, 8]] (AsyncManager 8)))
   \<and> stream_reads (doRead ((AsyncManager 8)\<lparr>in_buffer_size := 8\<rparr>)) = [(8, 0)]
   \<and> slice (last (stream_reads (doRead ((AsyncManager 8)\<lparr>in_buffer_size := 8\<rparr>)))) = []
   \<and> snd (last (stream_reads (doRead
        (run [Set_callback (Some observe), Worker_runs Success,
              Read_completes Success [1, 2, 3, 4, 5, 6, 7, 8]] (AsyncManager 8))))) = 0"
proof -
  have h1: "buffer_inv ((AsyncManager 8)\<lparr>in_buffer_size := 8\<rparr>)
     \<and> unat (in_buffer_size ((AsyncManager 8)\<lparr>in_buffer_size := 8\<rparr>))
         = length (in_buffer ((AsyncManager 8)\<lparr>in_buffer_size := 8\<rparr>))"
    by (simp add: buffer_inv_def AsyncManager_def emit_def post_def)
  have h2: "list_all bounded_length
       (registered [Set_callback (Some observe), Worker_runs Success,
                    Read_completes Success [1, 2, 3, 4, 5, 6, 7, 8]])"
    by (simp add: bounded_length_def observe_def)
  have h3: "unat (in_buffer_size
        (run [Set_callback (Some observe), Worker_runs Success,
              Read_completes Success [1, 2, 3, 4, 5, 6, 7, 8]] (AsyncManager 8)))
       = length (in_buffer
        (run [Set_callback (Some observe), Worker_runs Success,
              Read_completes Success [1, 2, 3, 4, 5, 6, 7, 8]] (AsyncManager 8)))"
    by (simp add: run_def run_one_def run_task_def read_completes_def member_defs write_at_def
          observe_def Let_def)
  have h4: "stream_reads (doRead ((AsyncManager 8)\<lparr>in_buffer_size := 8\<rparr>)) = [(8, 0)]"
    by (simp add: doRead_def AsyncManager_def emit_def post_def)
  from doRead_targets_free_slice
         [of "(AsyncManager 8)\<lparr>in_buffer_size := 8\<rparr>"
             "[Set_callback (Some observe), Worker_runs Success,
               Read_completes Success [1, 2, 3, 4, 5, 6, 7, 8]]" 8]
       h1 h2 h3 h4
  show ?thesis by blast
qed

text \<open>
  The claim as written fails after a callback that sets the length to 10 on a buffer of
  8 bytes: the next request of the read loop has the pointer 10 bytes into the buffer
  and, the subtraction having wrapped, the length \<open>2\<^sup>6\<^sup>4 - 2\<close>, where the positions from
  the occupied length up to the capacity are none.
\<close>

theorem doRead_overshoot_counterexample:
  "stream_reads
     (run [Set_callback (Some overshoot), Worker_runs Success, Read_completes Success [1, 2, 3],
           Worker_runs Success] (AsyncManager 8))
     = [(10, 18446744073709551614)]
   \<and> [unat (in_buffer_size
          (run [Set_callback (Some overshoot), Worker_runs Success, Read_completes Success [1, 2, 3]]
             (AsyncManager 8)))
        ..< length (in_buffer
          (run [Set_callback (Some overshoot), Worker_runs Success, Read_completes Success [1, 2, 3]]
             (AsyncManager 8)))] = []
   \<and> slice (10, 18446744073709551614) \<noteq> []"
proof (intro conjI)
  show "stream_reads
     (run [Set_callback (Some overshoot), Worker_runs Success, Read_completes Success [1, 2, 3],
           Worker_runs Success] (AsyncManager 8))
     = [(10, 18446744073709551614)]"
    by (simp add: run_def run_one_def run_task_def read_completes_def member_defs write_at_def
          overshoot_def Let_def)
  show "[unat (in_buffer_size
          (run [Set_callback (Some overshoot), Worker_runs Success, Read_completes Success [1, 2, 3]]
             (AsyncManager 8)))
        ..< length (in_buffer
          (run [Set_callback (Some overshoot), Worker_runs Success, Read_completes Success [1, 2, 3]]
             (AsyncManager 8)))] = []"
    by (simp add: run_def run_one_def run_task_def read_completes_def member_defs write_at_def
          overshoot_def Let_def)
  show "slice (10, 18446744073709551614) \<noteq> []"
    unfolding slice_def upt_eq_Nil_conv by simp
qed

text \<open>
  C7. The constructor gives a buffer of the requested capacity (8192 bytes by default)
  with occupied length 0, then posts the first \<^verbatim>\<open>doRead\<close> to the execution context, then
  starts one worker thread. It issues no read itself, waits for nothing, and no callback
  is registered.
\<close>

theorem construction:
  "in_buffer (AsyncManager buffer_size) = replicate (unat buffer_size) 0
   \<and> length (in_buffer (AsyncManager buffer_size)) = unat buffer_size
   \<and> in_buffer_size (AsyncManager buffer_size) = 0
   \<and> trace (AsyncManager buffer_size) =
       [RosDebug ''Setting the stream private variable of the AsyncManager class.'' [],
        Post DoRead, SpawnThread]
   \<and> io_service_queue (AsyncManager buffer_size) = [DoRead]
   \<and> stream_reads (AsyncManager buffer_size) = []
   \<and> waiters (AsyncManager buffer_size) = []
   \<and> read_callback (AsyncManager buffer_size) = None
   \<and> \<not> stopping (AsyncManager buffer_size)
   \<and> unat default_buffer_size = 8192
   \<and> length (in_buffer (AsyncManager default_buffer_size)) = 8192"
  by (simp add: AsyncManager_def emit_def post_def default_buffer_size_def)

text \<open>
  C5. \<^verbatim>\<open>doClose\<close> takes the lock, sets the stopping flag, asks the stream to close, logs a
  close error if there is one and releases the lock; a close error changes nothing but
  the log. A read completion that runs while the stopping flag is set posts no
  \<^verbatim>\<open>doRead\<close>: the queue of the execution context is as before.
\<close>

theorem shutdown_stops_read_loop:
  "trace (doClose close_error s) =
     trace s @ [Lock, StreamClose]
       @ (case close_error of
            Success \<Rightarrow> []
          | Failure msg \<Rightarrow> [RosError (''Error while closing the AsyncManager: '' @ msg) []])
       @ [Unlock]
   \<and> stopping (doClose close_error s)
   \<and> (doClose close_error s)\<lparr>trace := []\<rparr> = (doClose Success s)\<lparr>trace := []\<rparr>
   \<and> (stopping s \<longrightarrow>
        io_service_queue (async_read_some_handler error n s) = io_service_queue s
        \<and> count_list (added s (async_read_some_handler error n s)) (Post DoRead) = 0
        \<and> stopping (async_read_some_handler error n s))"
  by (cases close_error; cases error)
     (simp_all add: member_defs added_def Let_def split: option.split)

theorem shutdown_stops_read_loop_witness:
  "stopping (doClose (Failure ''Bad file descriptor'') (AsyncManager 8))
   \<and> io_service_queue
        (async_read_some_handler Success 3 (doClose (Failure ''Bad file descriptor'') (AsyncManager 8)))
       = [DoRead]"
  using shutdown_stops_read_loop
          [of "Failure ''Bad file descriptor''" "doClose (Failure ''Bad file descriptor'') (AsyncManager 8)"
              Success 3]
  by (simp add: doClose_def AsyncManager_def emit_def post_def)



text \<open>
  C9. Neither \<^verbatim>\<open>doClose\<close> nor the destructor notifies the condition: the threads blocked in
  \<^verbatim>\<open>wait\<close> stay blocked. A thread that waits when the manager shuts down is still
  waiting after \<^verbatim>\<open>doClose\<close>, and also after the completion with an error by which the
  stream answers the close; only the return of its own \<^verbatim>\<open>timed_wait\<close> takes it out.
\<close>

theorem shutdown_notifies_nobody:
  "waiters (doClose close_error s) = waiters s
   \<and> count_list (added s (doClose close_error s)) NotifyAll = 0
   \<and> waiters (AsyncManager_destructor s) = waiters s
   \<and> count_list (added s (AsyncManager_destructor s)) NotifyAll = 0
   \<and> waiters (doClose close_error (wait tid timeout s)) = waiters s @ [(tid, timeout)]
   \<and> waiters (async_read_some_handler (Failure msg) n (doClose close_error (wait tid timeout s)))
       = waiters s @ [(tid, timeout)]
   \<and> (tid, timeout) \<notin> set (waiters (wait_return tid (doClose close_error (wait tid timeout s))))"
  by (cases close_error) (simp_all add: member_defs added_def)

end
